theory Spec2Isabelle
  imports Complex_Main "HOL-Library.Word" "HOL-Library.Signed_Division"
begin

section \<open>Conventions of the embedding\<close>

text \<open>
  The development embeds parts of \<^verbatim>\<open>open3d/core/Indexer.h\<close> and of
  \<^verbatim>\<open>open3d/t/geometry/kernel/PointCloudImpl.h\<close>.

  \<^item> \<^verbatim>\<open>int64_t\<close> and \<^verbatim>\<open>int\<close> values are \<open>int\<close>; \<^verbatim>\<open>/\<close> and \<^verbatim>\<open>%\<close> on them are the truncating
    \<open>sdiv\<close> and \<open>smod\<close>. Signed overflow is undefined in C++ and is not modelled: no
    statement below depends on it.
  \<^item> \<^verbatim>\<open>index_t = uint32_t\<close> values are \<open>32 word\<close>, whose \<open>+\<close>, \<open>*\<close> wrap around.
  \<^item> In the covariance and normal kernels \<^verbatim>\<open>scalar_t\<close> (\<^verbatim>\<open>float\<close> or \<^verbatim>\<open>double\<close>) is
    \<open>real\<close>: comparisons are exact, arithmetic is the exact arithmetic that the
    floating-point operations approximate. In \<^verbatim>\<open>UnprojectCPU\<close>, where a rounded quotient
    decides what is kept, a \<^verbatim>\<open>float\<close> is a value of the type \<open>float\<close> and the division that
    rounds is a parameter.
  \<^item> A raw pointer into a caller's buffer is a function from offsets to values.
    A fixed-size array member is a list; a read or write outside it is the outcome
    \<open>OutOfBounds\<close>.
  \<^item> A data member \<^verbatim>\<open>x_\<close> is the record field \<open>x_'\<close> (an identifier cannot end
    with an underscore).
  \<^item> \<^verbatim>\<open>utility::LogError\<close> raises; it is the outcome \<open>LogError msg\<close> with the format string
    of the call. Undefined behaviour of C++ (an access outside a container, an integer
    division by zero) is an outcome of its own, so that it is never mistaken for a result.
\<close>

datatype error = LogError string | OutOfBounds | DivisionByZero

definition bind_err :: "error + 'a \<Rightarrow> ('a \<Rightarrow> error + 'b) \<Rightarrow> error + 'b" where
  "bind_err r f = (case r of Inl e \<Rightarrow> Inl e | Inr v \<Rightarrow> f v)"

definition array_at :: "'a list \<Rightarrow> int \<Rightarrow> error + 'a" where
  "array_at xs i = (if 0 \<le> i \<and> i < int (length xs) then Inr (xs ! nat i) else Inl OutOfBounds)"

definition MAX_DIMS :: int where "MAX_DIMS = 10"
definition MAX_INPUTS :: int where "MAX_INPUTS = 10"
definition MAX_OUTPUTS :: int where "MAX_OUTPUTS = 7"

section \<open>TensorRef\<close>

text \<open>
  \<^verbatim>\<open>struct TensorRef\<close>: \<^verbatim>\<open>shape_\<close> and \<^verbatim>\<open>byte_strides_\<close> are arrays of \<^verbatim>\<open>MAX_DIMS\<close> entries, of
  which the first \<^verbatim>\<open>ndims_\<close> are in use. The data pointer is an address; \<open>nullptr\<close> is 0.
\<close>

record TensorRef =
  data_ptr_' :: int
  ndims_' :: int
  dtype_byte_size_' :: int
  shape_' :: "int list"
  byte_strides_' :: "int list"

definition nullptr :: int where "nullptr = 0"

text \<open>
  Modelled from the spec: \<^verbatim>\<open>shape_util::WrapDim\<close> (\<^verbatim>\<open>open3d/core/ShapeUtil.h\<close>) is not among
  the source files. A dimension index out of range is raised at the call site; an index in
  \<open>[0, max_dim)\<close> is returned as it is, and a negative index in \<open>[-max_dim, 0)\<close> wraps
  around once, as the name says.
\<close>

definition WrapDim :: "int \<Rightarrow> int \<Rightarrow> error + int" where
  "WrapDim d max_dim =
     (if d < - max_dim \<or> max_dim \<le> d then Inl (LogError ''Index out-of-range'')
      else Inr (if d < 0 then d + max_dim else d))"

text \<open>
  \<^verbatim>\<open>for (const int64_t& dim : dims) seen_dims[dim] = true;\<close> on a
  \<^verbatim>\<open>std::vector<bool>\<close> of \<^verbatim>\<open>ndims_\<close> entries: \<^verbatim>\<open>operator[]\<close> does not check its index.
\<close>

fun mark_seen :: "int list \<Rightarrow> bool list \<Rightarrow> error + bool list" where
  "mark_seen [] seen_dims = Inr seen_dims"
| "mark_seen (d # dims) seen_dims =
     (if 0 \<le> d \<and> d < int (length seen_dims)
      then mark_seen dims (seen_dims[nat d := True])
      else Inl OutOfBounds)"

text \<open>
  The first loop of \<^verbatim>\<open>Permute\<close>: entry \<open>i\<close> of \<^verbatim>\<open>new_shape\<close> and of \<^verbatim>\<open>new_byte_strides\<close>
  for \<open>i\<close> from 0 up to \<^verbatim>\<open>ndims_\<close>; \<^verbatim>\<open>dims\<close> has \<^verbatim>\<open>ndims_\<close> entries when it runs.
\<close>

fun map_dims :: "TensorRef \<Rightarrow> int list \<Rightarrow> error + (int \<times> int) list" where
  "map_dims tr [] = Inr []"
| "map_dims tr (d # ds) =
     bind_err (WrapDim d (TensorRef.ndims_' tr)) (\<lambda>old_dim.
     bind_err (array_at (shape_' tr) old_dim) (\<lambda>s.
     bind_err (array_at (byte_strides_' tr) old_dim) (\<lambda>b.
     bind_err (map_dims tr ds) (\<lambda>rest. Inr ((s, b) # rest)))))"

text \<open>
  \<^verbatim>\<open>TensorRef::Permute\<close>. The second loop copies \<^verbatim>\<open>new_shape\<close> and \<^verbatim>\<open>new_byte_strides\<close>
  over the first \<^verbatim>\<open>ndims_\<close> entries of the two arrays.
\<close>

definition Permute :: "TensorRef \<Rightarrow> int list \<Rightarrow> error + TensorRef" where
  "Permute tr dims =
     (if int (length dims) \<noteq> TensorRef.ndims_' tr
      then Inl (LogError ''Number of dimensions mismatch {} != {}.'')
      else bind_err (mark_seen dims (replicate (nat (TensorRef.ndims_' tr)) False)) (\<lambda>seen_dims.
        if \<not> list_all (\<lambda>seen. seen) seen_dims
        then Inl (LogError ''Permute dims must be a permuntation from 0 to {}.'')
        else bind_err (map_dims tr dims) (\<lambda>new.
          if length new \<le> length (shape_' tr) \<and> length new \<le> length (byte_strides_' tr)
          then Inr (tr\<lparr>shape_' := map fst new @ drop (length new) (shape_' tr),
                      byte_strides_' := map snd new @ drop (length new) (byte_strides_' tr)\<rparr>)
          else Inl OutOfBounds)))"

text \<open>
  The invariant of a \<^verbatim>\<open>TensorRef\<close>: the two arrays have \<^verbatim>\<open>MAX_DIMS\<close> entries and the
  constructor refuses more than \<^verbatim>\<open>MAX_DIMS\<close> dimensions.
\<close>

definition TensorRef_ok :: "TensorRef \<Rightarrow> bool" where
  "TensorRef_ok tr =
     (0 \<le> TensorRef.ndims_' tr \<and> TensorRef.ndims_' tr \<le> MAX_DIMS \<and>
      int (length (shape_' tr)) = MAX_DIMS \<and> int (length (byte_strides_' tr)) = MAX_DIMS)"

text \<open>A list of \<open>n\<close> dimension indices that is a permutation of \<open>[0, n)\<close>.\<close>

definition is_permutation :: "int \<Rightarrow> int list \<Rightarrow> bool" where
  "is_permutation n p = (int (length p) = n \<and> set p = {0..<n})"

section \<open>OffsetCalculator\<close>

text \<open>
  \<^verbatim>\<open>template <int NARGS, typename index_t = uint32_t> struct OffsetCalculator\<close>. The template
  argument \<^verbatim>\<open>NARGS\<close> is a parameter of the functions. \<^verbatim>\<open>sizes_\<close> has \<^verbatim>\<open>MAX_DIMS\<close> entries
  and \<^verbatim>\<open>strides_\<close> has \<^verbatim>\<open>MAX_DIMS\<close> rows of \<^verbatim>\<open>NARGS\<close> entries. The constructor reads its
  arguments through pointers, \<^verbatim>\<open>sizes[i]\<close> and \<^verbatim>\<open>strides[arg][i]\<close>, and narrows \<^verbatim>\<open>int64_t\<close>
  to \<^verbatim>\<open>index_t\<close>.
\<close>

record OffsetCalculator =
  dims_' :: int
  sizes_' :: "32 word list"
  strides_' :: "32 word list list"

text \<open>The conversion of an \<^verbatim>\<open>int64_t\<close> to \<^verbatim>\<open>index_t\<close> keeps the low 32 bits.\<close>

definition index_t :: "int \<Rightarrow> 32 word" where
  "index_t v = word_of_int v"

definition OffsetCalculator_new ::
    "nat \<Rightarrow> int \<Rightarrow> (nat \<Rightarrow> int) \<Rightarrow> (nat \<Rightarrow> nat \<Rightarrow> int) \<Rightarrow> error + OffsetCalculator" where
  "OffsetCalculator_new NARGS dims sizes strides =
     (if dims > MAX_DIMS then Inl (LogError ''tensor has too many (>{}) dims_'')
      else Inr \<lparr>dims_' = dims,
                sizes_' = map (\<lambda>i. if int i < dims then index_t (sizes i) else 1)
                            [0..<nat MAX_DIMS],
                strides_' = map (\<lambda>i. map (\<lambda>arg. if int i < dims then index_t (strides arg i) else 0)
                                       [0..<NARGS])
                              [0..<nat MAX_DIMS]\<rparr>)"

text \<open>
  The loop of \<^verbatim>\<open>get\<close> over \<^verbatim>\<open>dim = 0, ..., MAX_DIMS - 1\<close>, leaving at \<^verbatim>\<open>dim == dims_\<close>.
  \<^verbatim>\<open>%\<close> and \<^verbatim>\<open>/\<close> by a zero size are undefined.
\<close>

fun get_loop :: "OffsetCalculator \<Rightarrow> nat list \<Rightarrow> 32 word \<Rightarrow> 32 word list \<Rightarrow> error + 32 word list" where
  "get_loop oc [] linear_idx offsets = Inr offsets"
| "get_loop oc (d # ds) linear_idx offsets =
     (if int d = dims_' oc then Inr offsets
      else bind_err (array_at (sizes_' oc) (int d)) (\<lambda>size_d.
           bind_err (array_at (strides_' oc) (int d)) (\<lambda>strides_d.
           if size_d = 0 then Inl DivisionByZero
           else let m = linear_idx mod size_d
                in get_loop oc ds (linear_idx div size_d)
                     (map2 (\<lambda>offset stride. offset + m * stride) offsets strides_d))))"

definition get :: "nat \<Rightarrow> OffsetCalculator \<Rightarrow> 32 word \<Rightarrow> error + 32 word list" where
  "get NARGS oc linear_idx = get_loop oc [0..<nat MAX_DIMS] linear_idx (replicate NARGS 0)"

text \<open>
  The invariant of an \<^verbatim>\<open>OffsetCalculator\<close>: the declared sizes of its arrays, and a
  number of dimensions within \<^verbatim>\<open>MAX_DIMS\<close>.
\<close>

definition OffsetCalculator_ok :: "nat \<Rightarrow> OffsetCalculator \<Rightarrow> bool" where
  "OffsetCalculator_ok NARGS oc =
     (0 \<le> dims_' oc \<and> dims_' oc \<le> MAX_DIMS \<and>
      int (length (sizes_' oc)) = MAX_DIMS \<and> int (length (strides_' oc)) = MAX_DIMS \<and>
      (\<forall>row \<in> set (strides_' oc). length row = NARGS))"

section \<open>Indexer\<close>

text \<open>
  \<^verbatim>\<open>class Indexer\<close>: \<^verbatim>\<open>inputs_\<close> has \<^verbatim>\<open>MAX_INPUTS\<close> entries, \<^verbatim>\<open>outputs_\<close> has \<^verbatim>\<open>MAX_OUTPUTS\<close>,
  \<^verbatim>\<open>master_shape_\<close> and \<^verbatim>\<open>master_strides_\<close> have \<^verbatim>\<open>MAX_DIMS\<close>.
\<close>

record Indexer =
  num_inputs_' :: int
  num_outputs_' :: int
  inputs_' :: "TensorRef list"
  outputs_' :: "TensorRef list"
  master_shape_' :: "int list"
  master_strides_' :: "int list"
  ndims_' :: int
  final_output_' :: bool
  accumulate_' :: bool

definition NumInputs :: "Indexer \<Rightarrow> int" where
  "NumInputs ix = num_inputs_' ix"

definition GetInput :: "Indexer \<Rightarrow> int \<Rightarrow> error + TensorRef" where
  "GetInput ix i =
     (if i \<ge> num_inputs_' ix \<or> i < 0
      then Inl (LogError ''0 <= i < {} required, however, i = {}.'')
      else array_at (inputs_' ix) i)"

definition GetOutput :: "Indexer \<Rightarrow> int \<Rightarrow> error + TensorRef" where
  "GetOutput ix i =
     (if i \<ge> num_outputs_' ix \<or> i < 0
      then Inl (LogError ''0 <= i < {} required, however, i = {}.'')
      else array_at (outputs_' ix) i)"

definition IsReductionDim :: "Indexer \<Rightarrow> int \<Rightarrow> error + bool" where
  "IsReductionDim ix d =
     bind_err (array_at (outputs_' ix) 0) (\<lambda>out.
     bind_err (array_at (byte_strides_' out) d) (\<lambda>byte_stride.
       if byte_stride = 0
       then bind_err (array_at (master_shape_' ix) d) (\<lambda>extent. Inr (extent > 1))
       else Inr False))"

text \<open>
  The loop of \<^verbatim>\<open>GetWorkloadDataPtr\<close> over \<^verbatim>\<open>i = 0, ..., ndims_ - 1\<close>, with the running
  \<^verbatim>\<open>workload_idx\<close> and \<^verbatim>\<open>offset\<close>.
\<close>

fun workload_offset :: "int list \<Rightarrow> int list \<Rightarrow> int list \<Rightarrow> int \<Rightarrow> int \<Rightarrow> error + int" where
  "workload_offset master_strides byte_strides [] workload_idx offset = Inr offset"
| "workload_offset master_strides byte_strides (i # is) workload_idx offset =
     bind_err (array_at master_strides i) (\<lambda>master_stride.
     bind_err (array_at byte_strides i) (\<lambda>byte_stride.
       if master_stride = 0 then Inl DivisionByZero
       else workload_offset master_strides byte_strides is
              (workload_idx smod master_stride)
              (offset + workload_idx sdiv master_stride * byte_stride)))"

definition GetWorkloadDataPtr :: "Indexer \<Rightarrow> TensorRef \<Rightarrow> int \<Rightarrow> error + int" where
  "GetWorkloadDataPtr ix tr workload_idx =
     (if workload_idx < 0 then Inr nullptr
      else bind_err (workload_offset (master_strides_' ix) (byte_strides_' tr)
                       (map int [0..<nat (Indexer.ndims_' ix)]) workload_idx 0)
             (\<lambda>offset. Inr (data_ptr_' tr + offset)))"

definition GetInputPtr :: "Indexer \<Rightarrow> int \<Rightarrow> int \<Rightarrow> error + int" where
  "GetInputPtr ix input_idx workload_idx =
     (if input_idx < 0 \<or> input_idx \<ge> num_inputs_' ix then Inr nullptr
      else bind_err (array_at (inputs_' ix) input_idx) (\<lambda>tr.
             GetWorkloadDataPtr ix tr workload_idx))"

text \<open>The two overloads of \<^verbatim>\<open>GetOutputPtr\<close>: without and with an output index.\<close>

definition GetOutputPtr :: "Indexer \<Rightarrow> int \<Rightarrow> error + int" where
  "GetOutputPtr ix workload_idx =
     bind_err (array_at (outputs_' ix) 0) (\<lambda>tr. GetWorkloadDataPtr ix tr workload_idx)"

definition GetOutputPtr_idx :: "Indexer \<Rightarrow> int \<Rightarrow> int \<Rightarrow> error + int" where
  "GetOutputPtr_idx ix output_idx workload_idx =
     bind_err (array_at (outputs_' ix) output_idx) (\<lambda>tr. GetWorkloadDataPtr ix tr workload_idx)"

text \<open>
  The invariant of an \<^verbatim>\<open>Indexer\<close> that decoding relies on: the arrays have their declared
  sizes, \<^verbatim>\<open>ndims_\<close> is within \<^verbatim>\<open>MAX_DIMS\<close>, and no master stride in use is zero.
\<close>

definition Indexer_ok :: "Indexer \<Rightarrow> bool" where
  "Indexer_ok ix =
     (0 \<le> Indexer.ndims_' ix \<and> Indexer.ndims_' ix \<le> MAX_DIMS \<and>
      int (length (master_shape_' ix)) = MAX_DIMS \<and>
      int (length (master_strides_' ix)) = MAX_DIMS \<and>
      int (length (inputs_' ix)) = MAX_INPUTS \<and>
      int (length (outputs_' ix)) = MAX_OUTPUTS \<and>
      (\<forall>tr \<in> set (inputs_' ix) \<union> set (outputs_' ix). int (length (byte_strides_' tr)) = MAX_DIMS) \<and>
      (\<forall>i < nat (Indexer.ndims_' ix). master_strides_' ix ! i \<noteq> 0))"

text \<open>
  The decomposition of a workload index against a list of strides, most significant
  axis first: the coordinate on an axis is the quotient by its stride, and the remainder
  is decomposed against the strides that follow.
\<close>

fun decompose :: "int list \<Rightarrow> int \<Rightarrow> int list" where
  "decompose [] w = []"
| "decompose (m # ms) w = (w sdiv m) # decompose ms (w smod m)"

definition workload_coords :: "Indexer \<Rightarrow> int \<Rightarrow> int list" where
  "workload_coords ix w =
     decompose (map (\<lambda>i. master_strides_' ix ! i) [0..<nat (Indexer.ndims_' ix)]) w"

section \<open>Point cloud kernels\<close>

subsection \<open>EstimatePointWiseCovariance\<close>

text \<open>
  The body of the accumulation loop for one neighbor index \<^verbatim>\<open>idx = indices_ptr[i]\<close>.
\<close>

definition accumulate_cumulants :: "(int \<Rightarrow> real) \<Rightarrow> real list \<Rightarrow> int \<Rightarrow> real list" where
  "accumulate_cumulants points_ptr cumulants idx =
     [cumulants ! 0 + points_ptr idx,
      cumulants ! 1 + points_ptr (idx + 1),
      cumulants ! 2 + points_ptr (idx + 2),
      cumulants ! 3 + points_ptr idx * points_ptr idx,
      cumulants ! 4 + points_ptr idx * points_ptr (idx + 1),
      cumulants ! 5 + points_ptr idx * points_ptr (idx + 2),
      cumulants ! 6 + points_ptr (idx + 1) * points_ptr (idx + 1),
      cumulants ! 7 + points_ptr (idx + 1) * points_ptr (idx + 2),
      cumulants ! 8 + points_ptr (idx + 2) * points_ptr (idx + 2)]"

text \<open>
  The result is the contents of \<^verbatim>\<open>covariance_ptr[0..8]\<close> after the call. For
  \<^verbatim>\<open>indices_size = 0\<close> the source divides zero by zero.
\<close>

definition EstimatePointWiseCovariance :: "(int \<Rightarrow> real) \<Rightarrow> (nat \<Rightarrow> int) \<Rightarrow> int \<Rightarrow> real list" where
  "EstimatePointWiseCovariance points_ptr indices_ptr indices_size =
     (let totals = fold (\<lambda>i cumulants. accumulate_cumulants points_ptr cumulants (indices_ptr i))
                   [0..<nat indices_size] (replicate 9 0);
          num_indices = real_of_int indices_size;
          cumulants = map (\<lambda>c. c / num_indices) totals;
          c0 = cumulants ! 3 - cumulants ! 0 * cumulants ! 0;
          c1 = cumulants ! 6 - cumulants ! 1 * cumulants ! 1;
          c2 = cumulants ! 8 - cumulants ! 2 * cumulants ! 2;
          c3 = cumulants ! 4 - cumulants ! 0 * cumulants ! 1;
          c4 = c1;
          c5 = cumulants ! 5 - cumulants ! 0 * cumulants ! 2;
          c6 = c2;
          c7 = cumulants ! 7 - cumulants ! 1 * cumulants ! 2;
          c8 = c5
      in [c0, c1, c2, c3, c4, c5, c6, c7, c8])"

subsection \<open>The closed-form eigensolver\<close>

definition ComputeEigenvector0 :: "real list \<Rightarrow> real \<Rightarrow> real list" where
  "ComputeEigenvector0 A eval0 =
     (let row0 = [A ! 0 - eval0, A ! 1, A ! 2];
          row1 = [A ! 1, A ! 4 - eval0, A ! 5];
          row2 = [A ! 2, A ! 5, A ! 8 - eval0];
          r0xr1 = [row0 ! 1 * row1 ! 2 - row0 ! 2 * row1 ! 1,
                   row0 ! 2 * row1 ! 0 - row0 ! 0 * row1 ! 2,
                   row0 ! 0 * row1 ! 1 - row0 ! 1 * row1 ! 0];
          r0xr2 = [row0 ! 1 * row2 ! 2 - row0 ! 2 * row2 ! 1,
                   row0 ! 2 * row2 ! 0 - row0 ! 0 * row2 ! 2,
                   row0 ! 0 * row2 ! 1 - row0 ! 1 * row2 ! 0];
          r1xr2 = [row1 ! 1 * row2 ! 2 - row1 ! 2 * row2 ! 1,
                   row1 ! 2 * row2 ! 0 - row1 ! 0 * row2 ! 2,
                   row1 ! 0 * row2 ! 1 - row1 ! 1 * row2 ! 0];
          d0 = r0xr1 ! 0 * r0xr1 ! 0 + r0xr1 ! 1 * r0xr1 ! 1 + r0xr1 ! 2 * r0xr1 ! 2;
          d1 = r0xr2 ! 0 * r0xr2 ! 0 + r0xr2 ! 1 * r0xr2 ! 1 + r0xr2 ! 2 * r0xr2 ! 2;
          d2 = r1xr2 ! 0 * r1xr2 ! 0 + r1xr2 ! 1 * r1xr2 ! 1 + r1xr2 ! 2 * r1xr2 ! 2;
          dmax = (if d1 > d0 then d1 else d0);
          imax = (if d2 > dmax then 2 else if d1 > d0 then 1 else (0::nat))
      in if imax = 0 then
           let sqrt_d = sqrt d0
           in [r0xr1 ! 0 / sqrt_d, r0xr1 ! 1 / sqrt_d, r0xr1 ! 2 / sqrt_d]
         else if imax = 1 then
           let sqrt_d = sqrt d1
           in [r0xr2 ! 0 / sqrt_d, r0xr2 ! 1 / sqrt_d, r0xr2 ! 2 / sqrt_d]
         else
           let sqrt_d = sqrt d2
           in [r1xr2 ! 0 / sqrt_d, r1xr2 ! 1 / sqrt_d, r1xr2 ! 2 / sqrt_d])"

text \<open>
  In \<^verbatim>\<open>ComputeEigenvector1\<close> the macro call \<^verbatim>\<open>O3D_MAX(absM00, absM01)\<close> is the right-hand
  side of an assignment and expands to \<^verbatim>\<open>absM00 > absM01 ? absM00 : absM01\<close>. The pairs
  \<open>(m00, m01)\<close> and \<open>(m11, m01)\<close> are the values of the variables after the three
  assignments that rescale them.
\<close>

definition ComputeEigenvector1 :: "real list \<Rightarrow> real list \<Rightarrow> real \<Rightarrow> real list" where
  "ComputeEigenvector1 A evec0 eval1 =
     (let U = (if \<bar>evec0 ! 0\<bar> > \<bar>evec0 ! 1\<bar>
               then let inv_length = 1 / sqrt (evec0 ! 0 * evec0 ! 0 + evec0 ! 2 * evec0 ! 2)
                    in [- (evec0 ! 2) * inv_length, 0, evec0 ! 0 * inv_length]
               else let inv_length = 1 / sqrt (evec0 ! 1 * evec0 ! 1 + evec0 ! 2 * evec0 ! 2)
                    in [0, evec0 ! 2 * inv_length, - (evec0 ! 1) * inv_length]);
          V = [evec0 ! 1 * U ! 2 - evec0 ! 2 * U ! 1,
               evec0 ! 2 * U ! 0 - evec0 ! 0 * U ! 2,
               evec0 ! 0 * U ! 1 - evec0 ! 1 * U ! 0];
          AU = [A ! 0 * U ! 0 + A ! 1 * U ! 1 + A ! 2 * U ! 2,
                A ! 1 * U ! 0 + A ! 4 * U ! 1 + A ! 5 * U ! 2,
                A ! 2 * U ! 0 + A ! 5 * U ! 1 + A ! 8 * U ! 2];
          AV = [A ! 0 * V ! 0 + A ! 1 * V ! 1 + A ! 2 * V ! 2,
                A ! 1 * V ! 0 + A ! 4 * V ! 1 + A ! 5 * V ! 2,
                A ! 2 * V ! 0 + A ! 5 * V ! 1 + A ! 8 * V ! 2];
          m00 = U ! 0 * AU ! 0 + U ! 1 * AU ! 1 + U ! 2 * AU ! 2 - eval1;
          m01 = U ! 0 * AV ! 0 + U ! 1 * AV ! 1 + U ! 2 * AV ! 2;
          m11 = V ! 0 * AV ! 0 + V ! 1 * AV ! 1 + V ! 2 * AV ! 2 - eval1;
          absM00 = \<bar>m00\<bar>;
          absM01 = \<bar>m01\<bar>;
          absM11 = \<bar>m11\<bar>
      in if absM00 \<ge> absM11 then
           let max_abs_comp = (if absM00 > absM01 then absM00 else absM01)
           in if max_abs_comp > 0 then
                let (m00, m01) =
                      (if absM00 \<ge> absM01
                       then let m01 = m01 / m00; m00 = 1 / sqrt (1 + m01 * m01) in (m00, m01 * m00)
                       else let m00 = m00 / m01; m01 = 1 / sqrt (1 + m00 * m00) in (m00 * m01, m01))
                in [m01 * U ! 0 - m00 * V ! 0, m01 * U ! 1 - m00 * V ! 1, m01 * U ! 2 - m00 * V ! 2]
              else [U ! 0, U ! 1, U ! 2]
         else
           let max_abs_comp = (if absM11 > absM01 then absM11 else absM01)
           in if max_abs_comp > 0 then
                let (m11, m01) =
                      (if absM11 \<ge> absM01
                       then let m01 = m01 / m11; m11 = 1 / sqrt (1 + m01 * m01) in (m11, m01 * m11)
                       else let m11 = m11 / m01; m01 = 1 / sqrt (1 + m11 * m11) in (m11 * m01, m01))
                in [m11 * U ! 0 - m01 * V ! 0, m11 * U ! 1 - m01 * V ! 1, m11 * U ! 2 - m01 * V ! 2]
              else [U ! 0, U ! 1, U ! 2])"

text \<open>
  The statement \<^verbatim>\<open>half_det = O3D_MIN(O3D_MAX(half_det, -1.0), 1.0);\<close> under
  \<^verbatim>\<open>#define O3D_MIN(a, b) a < b ? a : b\<close> and \<^verbatim>\<open>#define O3D_MAX(a, b) a > b ? a : b\<close>.
  The macros put no parentheses around their arguments or their bodies, so the
  preprocessor produces the token sequence

  \<^verbatim>\<open>half_det > -1.0 ? half_det : -1.0 < 1.0 ? half_det > -1.0 ? half_det : -1.0 : 1.0\<close>

  in which the relational operators bind tighter than \<^verbatim>\<open>?:\<close>, and \<^verbatim>\<open>?:\<close> groups to the
  right: the first condition is \<^verbatim>\<open>half_det > -1.0\<close>, and its else-operand is the
  conditional with the condition \<^verbatim>\<open>-1.0 < 1.0\<close>.
\<close>

definition clamp_half_det :: "real \<Rightarrow> real" where
  "clamp_half_det half_det =
     (if half_det > -1 then half_det
      else if (-1 :: real) < 1 then (if half_det > -1 then half_det else -1)
      else 1)"

text \<open>
  The result is the contents of \<^verbatim>\<open>normals_ptr[0..2]\<close> after the call. The variable
  \<^verbatim>\<open>max_coeff\<close> is replaced by an entry whenever it is greater than the entry.
\<close>

definition EstimatePointWiseNormalsWithFastEigen3x3 :: "(nat \<Rightarrow> real) \<Rightarrow> real list" where
  "EstimatePointWiseNormalsWithFastEigen3x3 covariance_ptr =
     (let max_coeff = fold (\<lambda>i max_coeff. if max_coeff > covariance_ptr i then covariance_ptr i
                                          else max_coeff)
                        [1..<9] (covariance_ptr 0)
      in if max_coeff = 0 then [0, 0, 0]
         else
           let A = map (\<lambda>i. covariance_ptr i / max_coeff) [0..<9];
               norm = A ! 1 * A ! 1 + A ! 2 * A ! 2 + A ! 5 * A ! 5
           in if norm > 0 then
                let q = (A ! 0 + A ! 4 + A ! 8) / 3;
                    b00 = A ! 0 - q;
                    b11 = A ! 4 - q;
                    b22 = A ! 8 - q;
                    p = sqrt ((b00 * b00 + b11 * b11 + b22 * b22 + norm * 2) / 6);
                    c00 = b11 * b22 - A ! 5 * A ! 5;
                    c01 = A ! 1 * b22 - A ! 5 * A ! 2;
                    c02 = A ! 1 * A ! 5 - b11 * A ! 2;
                    det = (b00 * c00 - A ! 1 * c01 + A ! 2 * c02) / (p * p * p);
                    half_det = clamp_half_det (det * 0.5);
                    angle = arccos half_det / 3;
                    two_thrids_pi = 2.09439510239319549;
                    beta2 = cos angle * 2;
                    beta0 = cos (angle + two_thrids_pi) * 2;
                    beta1 = - (beta0 + beta2);
                    eval = [q + p * beta0, q + p * beta1, q + p * beta2]
                in if half_det \<ge> 0 then
                     let evec2 = ComputeEigenvector0 A (eval ! 2)
                     in if eval ! 2 < eval ! 0 \<and> eval ! 2 < eval ! 1 then
                          [evec2 ! 0, evec2 ! 1, evec2 ! 2]
                        else
                          let evec1 = ComputeEigenvector1 A evec2 (eval ! 1)
                          in if eval ! 1 < eval ! 0 \<and> eval ! 1 < eval ! 2 then
                               [evec1 ! 0, evec1 ! 1, evec1 ! 2]
                             else
                               [evec1 ! 1 * evec2 ! 2 - evec1 ! 2 * evec2 ! 1,
                                evec1 ! 2 * evec2 ! 0 - evec1 ! 0 * evec2 ! 2,
                                evec1 ! 0 * evec2 ! 1 - evec1 ! 1 * evec2 ! 0]
                   else
                     let evec0 = ComputeEigenvector0 A (eval ! 0)
                     in if eval ! 0 < eval ! 1 \<and> eval ! 0 < eval ! 2 then
                          [evec0 ! 0, evec0 ! 1, evec0 ! 2]
                        else
                          let evec1 = ComputeEigenvector1 A evec0 (eval ! 1)
                          in if eval ! 1 < eval ! 0 \<and> eval ! 1 < eval ! 2 then
                               [evec1 ! 0, evec1 ! 1, evec1 ! 2]
                             else
                               [evec0 ! 1 * evec1 ! 2 - evec0 ! 2 * evec1 ! 1,
                                evec0 ! 2 * evec1 ! 0 - evec0 ! 0 * evec1 ! 2,
                                evec0 ! 0 * evec1 ! 1 - evec0 ! 1 * evec1 ! 0]
              else if covariance_ptr 0 < covariance_ptr 4 \<and> covariance_ptr 0 < covariance_ptr 8
                then [1, 0, 0]
              else if covariance_ptr 0 < covariance_ptr 4 \<and> covariance_ptr 0 < covariance_ptr 8
                then [0, 1, 0]
              else [0, 0, 1])"

subsection \<open>UnprojectCPU\<close>








text \<open>
  The pixel \<open>(x, y)\<close> that the kernel reads for a workload index, and the vertex that it
  writes for a pixel.
\<close>

definition pixel_of :: "int \<Rightarrow> int \<Rightarrow> int \<Rightarrow> int \<times> int" where
  "pixel_of stride cols_strided workload_idx =
     ((workload_idx smod cols_strided) * stride, (workload_idx sdiv cols_strided) * stride)"


text \<open>
  The pixels that the strided iteration visits, row by row: every \<open>stride\<close>-th pixel
  of every \<open>stride\<close>-th row, \<open>rows div stride\<close> rows of \<open>cols div stride\<close> pixels
  each, as pairs \<open>(x, y)\<close>.
\<close>

definition strided_pixels :: "int \<Rightarrow> int \<Rightarrow> int \<Rightarrow> (int \<times> int) list" where
  "strided_pixels rows cols stride =
     concat (map (\<lambda>r. map (\<lambda>c. (int c * stride, int r * stride)) [0..<nat (cols div stride)])
               [0..<nat (rows div stride)])"




section \<open>Concrete inputs\<close>

text \<open>
  The inputs at which the statements below are evaluated: a contiguous \<open>2 \<times> 3 \<times> 5\<close>
  tensor of 4-byte elements; and the \<^verbatim>\<open>Indexer\<close> of a reduction of a contiguous
  \<open>2 \<times> 3\<close> tensor over axis 0 into a \<open>1 \<times> 3\<close> tensor, whose output stride on
  axis 0 is 0. Array entries that are not in use hold extent 1 and stride 0.
\<close>

definition tensor_2x3x5 :: TensorRef where
  "tensor_2x3x5 =
     \<lparr>data_ptr_' = 4096, ndims_' = 3, dtype_byte_size_' = 4,
      shape_' = [2, 3, 5, 1, 1, 1, 1, 1, 1, 1],
      byte_strides_' = [60, 20, 4, 0, 0, 0, 0, 0, 0, 0]\<rparr>"

definition unused_TensorRef :: TensorRef where
  "unused_TensorRef =
     \<lparr>data_ptr_' = nullptr, ndims_' = 0, dtype_byte_size_' = 0,
      shape_' = [1, 1, 1, 1, 1, 1, 1, 1, 1, 1],
      byte_strides_' = [0, 0, 0, 0, 0, 0, 0, 0, 0, 0]\<rparr>"

definition reduce_input :: TensorRef where
  "reduce_input =
     \<lparr>data_ptr_' = 4096, ndims_' = 2, dtype_byte_size_' = 4,
      shape_' = [2, 3, 1, 1, 1, 1, 1, 1, 1, 1],
      byte_strides_' = [12, 4, 0, 0, 0, 0, 0, 0, 0, 0]\<rparr>"

definition reduce_output :: TensorRef where
  "reduce_output =
     \<lparr>data_ptr_' = 8192, ndims_' = 2, dtype_byte_size_' = 4,
      shape_' = [1, 3, 1, 1, 1, 1, 1, 1, 1, 1],
      byte_strides_' = [0, 4, 0, 0, 0, 0, 0, 0, 0, 0]\<rparr>"

definition reduce_indexer :: Indexer where
  "reduce_indexer =
     \<lparr>num_inputs_' = 1, num_outputs_' = 1,
      inputs_' = reduce_input # replicate 9 unused_TensorRef,
      outputs_' = reduce_output # replicate 6 unused_TensorRef,
      master_shape_' = [2, 3, 1, 1, 1, 1, 1, 1, 1, 1],
      master_strides_' = [3, 1, 1, 1, 1, 1, 1, 1, 1, 1],
      ndims_' = 2, final_output_' = True, accumulate_' = False\<rparr>"

section \<open>Properties of TensorRef\<close>

lemma bind_err_Inr [simp]: "bind_err (Inr v) f = f v"
  by (simp add: bind_err_def)

lemma bind_err_Inl [simp]: "bind_err (Inl e) f = Inl e"
  by (simp add: bind_err_def)

lemma mark_seen_in_range:
  "\<forall>d\<in>set dims. 0 \<le> d \<and> d < int (length seen) \<Longrightarrow>
   mark_seen dims seen = Inr (map (\<lambda>j. seen ! j \<or> int j \<in> set dims) [0..<length seen])"
proof (induction dims arbitrary: seen)
  case Nil
  then show ?case by (simp add: map_nth)
next
  case (Cons d dims)
  have len: "length (seen[nat d := True]) = length seen" by simp
  have "mark_seen (d # dims) seen = mark_seen dims (seen[nat d := True])"
    using Cons.prems by simp
  also have "\<dots> = Inr (map (\<lambda>j. seen[nat d := True] ! j \<or> int j \<in> set dims) [0..<length seen])"
    using Cons.IH [of "seen[nat d := True]"] Cons.prems by simp
  also have "map (\<lambda>j. seen[nat d := True] ! j \<or> int j \<in> set dims) [0..<length seen]
      = map (\<lambda>j. seen ! j \<or> int j \<in> set (d # dims)) [0..<length seen]"
  proof (rule map_cong [OF refl])
    fix j assume "j \<in> set [0..<length seen]"
    then have j: "j < length seen" by simp
    have "nat d = j \<longleftrightarrow> int j = d" using Cons.prems by auto
    then show "(seen[nat d := True] ! j \<or> int j \<in> set dims) = (seen ! j \<or> int j \<in> set (d # dims))"
      using j by (auto simp: nth_list_update)
  qed
  finally show ?case .
qed

lemma map_dims_in_range:
  "\<forall>d\<in>set dims. 0 \<le> d \<and> d < TensorRef.ndims_' tr \<Longrightarrow> TensorRef.ndims_' tr \<le> int (length (shape_' tr)) \<Longrightarrow>
   TensorRef.ndims_' tr \<le> int (length (byte_strides_' tr)) \<Longrightarrow>
   map_dims tr dims = Inr (map (\<lambda>d. (shape_' tr ! nat d, byte_strides_' tr ! nat d)) dims)"
  by (induction dims) (auto simp: WrapDim_def array_at_def)

lemma Permute_permutation:
  assumes ok: "TensorRef_ok tr" and p: "is_permutation (TensorRef.ndims_' tr) p"
  shows "Permute tr p = Inr (tr\<lparr>shape_' := map (\<lambda>d. shape_' tr ! nat d) p @ drop (length p) (shape_' tr),
            byte_strides_' := map (\<lambda>d. byte_strides_' tr ! nat d) p @ drop (length p) (byte_strides_' tr)\<rparr>)"
proof -
  have len: "int (length p) = TensorRef.ndims_' tr" and setp: "set p = {0..<TensorRef.ndims_' tr}"
    using p by (simp_all add: is_permutation_def)
  have rng: "\<forall>d\<in>set p. 0 \<le> d \<and> d < TensorRef.ndims_' tr" using setp by simp
  have n0: "0 \<le> TensorRef.ndims_' tr" using ok by (simp add: TensorRef_ok_def)
  have seen: "mark_seen p (replicate (nat (TensorRef.ndims_' tr)) False)
      = Inr (map (\<lambda>j. replicate (nat (TensorRef.ndims_' tr)) False ! j \<or> int j \<in> set p) [0..<nat (TensorRef.ndims_' tr)])"
    using mark_seen_in_range [of p "replicate (nat (TensorRef.ndims_' tr)) False"] rng n0 by simp
  have all: "list_all (\<lambda>seen. seen)
      (map (\<lambda>j. replicate (nat (TensorRef.ndims_' tr)) False ! j \<or> int j \<in> set p) [0..<nat (TensorRef.ndims_' tr)])"
    using setp by (auto simp: list_all_iff)
  have md: "map_dims tr p = Inr (map (\<lambda>d. (shape_' tr ! nat d, byte_strides_' tr ! nat d)) p)"
    using map_dims_in_range [of p tr] rng ok by (simp add: TensorRef_ok_def)
  have fits: "length p \<le> length (shape_' tr)" "length p \<le> length (byte_strides_' tr)"
    using ok len by (simp_all add: TensorRef_ok_def)
  show ?thesis
    unfolding Permute_def using len seen all md fits by (simp add: comp_def)
qed


lemma prefix_rebuild:
  assumes "length q \<le> length xs" and "\<forall>i<length q. g (q ! i) = xs ! i"
  shows "map g q @ drop (length q) xs = xs"
proof (rule nth_equalityI)
  show "length (map g q @ drop (length q) xs) = length xs" using assms(1) by simp
next
  fix i assume "i < length (map g q @ drop (length q) xs)"
  then have i: "i < length xs" using assms(1) by simp
  show "(map g q @ drop (length q) xs) ! i = xs ! i"
  proof (cases "i < length q")
    case True
    then show ?thesis using assms(2) by (simp add: nth_append)
  next
    case False
    then show ?thesis using i assms(1) by (simp add: nth_append)
  qed
qed

lemma is_permutation_identity: "0 \<le> n \<Longrightarrow> is_permutation n (map int [0..<nat n])"
proof -
  assume n: "0 \<le> n"
  have "int ` {0..<nat n} = {0..<n}"
  proof (rule set_eqI)
    fix x show "x \<in> int ` {0..<nat n} \<longleftrightarrow> x \<in> {0..<n}"
    proof
      assume "x \<in> int ` {0..<nat n}" then show "x \<in> {0..<n}" by auto
    next
      assume x: "x \<in> {0..<n}"
      then have "x = int (nat x)" "nat x \<in> {0..<nat n}" by auto
      then show "x \<in> int ` {0..<nat n}" by (rule image_eqI)
    qed
  qed
  then show ?thesis using n by (simp add: is_permutation_def)
qed

text \<open>
  C10: for a \<^verbatim>\<open>TensorRef\<close> with any shape and strides and a permutation \<open>p\<close> of
  \<open>[0, ndims)\<close> with inverse \<open>q\<close>, \<^verbatim>\<open>Permute(p)\<close> followed by \<^verbatim>\<open>Permute(q)\<close> succeeds
  and gives back the \<^verbatim>\<open>TensorRef\<close> it started from, shape and byte strides included; and
  \<^verbatim>\<open>Permute\<close> by the identity permutation changes nothing.
\<close>

theorem Permute_inverse_restores:
  assumes ok: "TensorRef_ok tr"
    and p: "is_permutation (TensorRef.ndims_' tr) p"
    and q: "is_permutation (TensorRef.ndims_' tr) q"
    and inv: "\<forall>i<length q. p ! nat (q ! i) = int i"
  shows "bind_err (Permute tr p) (\<lambda>t. Permute t q) = Inr tr \<and>
         Permute tr (map int [0..<nat (TensorRef.ndims_' tr)]) = Inr tr"
proof
  let ?tr' = "tr\<lparr>shape_' := map (\<lambda>d. shape_' tr ! nat d) p @ drop (length p) (shape_' tr),
      byte_strides_' := map (\<lambda>d. byte_strides_' tr ! nat d) p @ drop (length p) (byte_strides_' tr)\<rparr>"
  have lp: "int (length p) = TensorRef.ndims_' tr" and lq: "int (length q) = TensorRef.ndims_' tr"
    and setq: "set q = {0..<TensorRef.ndims_' tr}"
    using p q by (simp_all add: is_permutation_def)
  have lpq: "length p = length q" using lp lq by simp
  have fits: "length q \<le> length (shape_' tr)" "length q \<le> length (byte_strides_' tr)"
    using ok lq by (simp_all add: TensorRef_ok_def)
  have ok': "TensorRef_ok ?tr'" using ok fits lpq by (simp add: TensorRef_ok_def)
  have q': "is_permutation (TensorRef.ndims_' ?tr') q" using q by simp
  have qi: "nat (q ! i) < length p" if "i < length q" for i
  proof -
    have "q ! i \<in> set q" using that by simp
    then show ?thesis using setq lp by auto
  qed
  have sh: "map (\<lambda>d. shape_' ?tr' ! nat d) q @ drop (length q) (shape_' ?tr') = shape_' tr"
  proof -
    have "drop (length q) (shape_' ?tr') = drop (length q) (shape_' tr)" using lpq by simp
    moreover have "\<forall>i<length q. (\<lambda>d. shape_' ?tr' ! nat d) (q ! i) = shape_' tr ! i"
      using inv qi by (simp add: nth_append)
    ultimately show ?thesis using prefix_rebuild [of q "shape_' tr" "\<lambda>d. shape_' ?tr' ! nat d"] fits
      by simp
  qed
  have bs: "map (\<lambda>d. byte_strides_' ?tr' ! nat d) q @ drop (length q) (byte_strides_' ?tr') = byte_strides_' tr"
  proof -
    have "drop (length q) (byte_strides_' ?tr') = drop (length q) (byte_strides_' tr)" using lpq by simp
    moreover have "\<forall>i<length q. (\<lambda>d. byte_strides_' ?tr' ! nat d) (q ! i) = byte_strides_' tr ! i"
      using inv qi by (simp add: nth_append)
    ultimately show ?thesis
      using prefix_rebuild [of q "byte_strides_' tr" "\<lambda>d. byte_strides_' ?tr' ! nat d"] fits by simp
  qed
  have "bind_err (Permute tr p) (\<lambda>t. Permute t q) = Permute ?tr' q"
    using Permute_permutation [OF ok p] by simp
  also have "\<dots> = Inr (?tr'\<lparr>shape_' := map (\<lambda>d. shape_' ?tr' ! nat d) q @ drop (length q) (shape_' ?tr'),
      byte_strides_' := map (\<lambda>d. byte_strides_' ?tr' ! nat d) q @ drop (length q) (byte_strides_' ?tr')\<rparr>)"
    by (rule Permute_permutation [OF ok' q'])
  also have "\<dots> = Inr tr" unfolding sh bs by simp
  finally show "bind_err (Permute tr p) (\<lambda>t. Permute t q) = Inr tr" .
next
  let ?id = "map int [0..<nat (TensorRef.ndims_' tr)]"
  have n0: "0 \<le> TensorRef.ndims_' tr" using ok by (simp add: TensorRef_ok_def)
  have idp: "is_permutation (TensorRef.ndims_' tr) ?id" using is_permutation_identity [OF n0] .
  have fits: "length ?id \<le> length (shape_' tr)" "length ?id \<le> length (byte_strides_' tr)"
    using ok by (auto simp: TensorRef_ok_def)
  have sh: "map (\<lambda>d. shape_' tr ! nat d) ?id @ drop (length ?id) (shape_' tr) = shape_' tr"
    using prefix_rebuild [of ?id "shape_' tr" "\<lambda>d. shape_' tr ! nat d"] fits(1) by simp
  have bs: "map (\<lambda>d. byte_strides_' tr ! nat d) ?id @ drop (length ?id) (byte_strides_' tr) = byte_strides_' tr"
    using prefix_rebuild [of ?id "byte_strides_' tr" "\<lambda>d. byte_strides_' tr ! nat d"] fits(2) by simp
  show "Permute tr ?id = Inr tr"
    unfolding Permute_permutation [OF ok idp] sh bs by simp
qed

theorem Permute_inverse_restores_witness:
  "TensorRef_ok tensor_2x3x5 \<and>
   is_permutation (TensorRef.ndims_' tensor_2x3x5) [2, 0, 1] \<and>
   is_permutation (TensorRef.ndims_' tensor_2x3x5) [1, 2, 0] \<and>
   map (\<lambda>i. [2, 0, 1] ! nat ([1, 2, 0::int] ! i)) [0..<3] = [0, 1, 2::int] \<and>
   bind_err (Permute tensor_2x3x5 [2, 0, 1]) (\<lambda>t. Permute t [1, 2, 0]) = Inr tensor_2x3x5 \<and>
   Permute tensor_2x3x5 (map int [0..<nat (TensorRef.ndims_' tensor_2x3x5)]) = Inr tensor_2x3x5"
proof -
  let ?tr = "tensor_2x3x5"
  have ok: "TensorRef_ok ?tr" by (simp add: TensorRef_ok_def MAX_DIMS_def tensor_2x3x5_def)
  have p: "is_permutation (TensorRef.ndims_' ?tr) [2, 0, 1]"
    by (auto simp: is_permutation_def tensor_2x3x5_def)
  have q: "is_permutation (TensorRef.ndims_' ?tr) [1, 2, 0]"
    by (auto simp: is_permutation_def tensor_2x3x5_def)
  have inv: "\<forall>i<length [1, 2, 0::int]. [2, 0, 1] ! nat ([1, 2, 0] ! i) = int i"
    by (simp add: eval_nat_numeral less_Suc_eq)
  have inv': "map (\<lambda>i. [2, 0, 1] ! nat ([1, 2, 0::int] ! i)) [0..<3] = [0, 1, 2::int]"
    by (simp add: eval_nat_numeral)
  show ?thesis using ok p q inv' Permute_inverse_restores [OF ok p q inv] by blast
qed

text \<open>
  What \<^verbatim>\<open>Permute\<close> does check: a list of the wrong length, and a list of the right
  length with all entries in \<open>[0, ndims)\<close> that misses one of them, are refused by
  \<^verbatim>\<open>LogError\<close> before anything is written.
\<close>

lemma Permute_refuses_checked:
  assumes "int (length dims) \<noteq> TensorRef.ndims_' tr \<or>
           ((\<forall>d\<in>set dims. 0 \<le> d \<and> d < TensorRef.ndims_' tr) \<and> set dims \<noteq> {0..<TensorRef.ndims_' tr})"
  shows "\<exists>msg. Permute tr dims = Inl (LogError msg)"
proof (cases "int (length dims) \<noteq> TensorRef.ndims_' tr")
  case True
  then show ?thesis by (simp add: Permute_def)
next
  case False
  then have len: "int (length dims) = TensorRef.ndims_' tr" by simp
  from False assms have rng: "\<forall>d\<in>set dims. 0 \<le> d \<and> d < TensorRef.ndims_' tr"
    and ne: "set dims \<noteq> {0..<TensorRef.ndims_' tr}" by simp_all
  have n0: "0 \<le> TensorRef.ndims_' tr" using len by linarith
  have "set dims \<subseteq> {0..<TensorRef.ndims_' tr}" using rng by auto
  with ne have "\<exists>k. k \<in> {0..<TensorRef.ndims_' tr} \<and> k \<notin> set dims" by blast
  then obtain k where k: "0 \<le> k" "k < TensorRef.ndims_' tr" "k \<notin> set dims" by auto
  have seen: "mark_seen dims (replicate (nat (TensorRef.ndims_' tr)) False)
      = Inr (map (\<lambda>j. replicate (nat (TensorRef.ndims_' tr)) False ! j \<or> int j \<in> set dims)
               [0..<nat (TensorRef.ndims_' tr)])"
    using mark_seen_in_range [of dims "replicate (nat (TensorRef.ndims_' tr)) False"] rng n0 by simp
  have nk: "nat k < nat (TensorRef.ndims_' tr)" "int (nat k) \<notin> set dims" using k by simp_all
  have "\<not> list_all (\<lambda>seen. seen)
      (map (\<lambda>j. replicate (nat (TensorRef.ndims_' tr)) False ! j \<or> int j \<in> set dims)
         [0..<nat (TensorRef.ndims_' tr)])"
  proof
    assume "list_all (\<lambda>seen. seen)
      (map (\<lambda>j. replicate (nat (TensorRef.ndims_' tr)) False ! j \<or> int j \<in> set dims)
         [0..<nat (TensorRef.ndims_' tr)])"
    then have "\<forall>j<nat (TensorRef.ndims_' tr). int j \<in> set dims"
      by (simp add: list_all_iff)
    with nk show False by blast
  qed
  then show ?thesis using len seen by (simp add: Permute_def)
qed

text \<open>
  C8: for a \<^verbatim>\<open>dims\<close> argument that is not a permutation of \<open>[0, ndims)\<close>, \<^verbatim>\<open>Permute\<close> is
  to fail with an invalid-argument condition, without an access out of bounds. With an
  entry out of range this is not what happens: for \<^verbatim>\<open>ndims_ = 3\<close> and
  \<^verbatim>\<open>dims = {0, -1, 1}\<close> the statement \<^verbatim>\<open>seen_dims[dim] = true\<close> writes at index \<open>-1\<close>
  of a vector of 3 entries before any check of the entries.
\<close>

theorem Permute_entry_out_of_range:
  "Permute tensor_2x3x5 [0, -1, 1] = Inl OutOfBounds"
  by (simp add: Permute_def tensor_2x3x5_def)

section \<open>Properties of OffsetCalculator\<close>

lemma unat_div_chain: "unat ((w::32 word) div s) = unat w div unat s"
  by (simp add: unat_div)

lemma word_mod_of_nat: "(w::32 word) mod s = of_nat (unat w mod unat s)"
  by (rule word_arith_nat_mod)

lemma get_loop_sum:
  assumes ok: "OffsetCalculator_ok NARGS oc"
    and nz: "\<forall>d<nat (dims_' oc). sizes_' oc ! d \<noteq> 0"
    and k: "k \<le> nat (dims_' oc)"
    and len: "length offsets = NARGS"
  shows "get_loop oc [k..<nat MAX_DIMS] linear_idx offsets =
         Inr (map (\<lambda>a. offsets ! a +
                (\<Sum>d = k..<nat (dims_' oc).
                   of_nat ((unat linear_idx div (\<Prod>j = k..<d. unat (sizes_' oc ! j))) mod unat (sizes_' oc ! d))
                   * strides_' oc ! d ! a))
              [0..<NARGS])"
  using k len
proof (induction "nat (dims_' oc) - k" arbitrary: k linear_idx offsets)
  case 0
  then have keq: "k = nat (dims_' oc)" by simp
  have d0: "0 \<le> dims_' oc" "dims_' oc \<le> MAX_DIMS" using ok by (simp_all add: OffsetCalculator_ok_def)
  have "get_loop oc [k..<nat MAX_DIMS] linear_idx offsets = Inr offsets"
  proof (cases "k < nat MAX_DIMS")
    case True
    then have "[k..<nat MAX_DIMS] = k # [Suc k..<nat MAX_DIMS]" by (simp add: upt_conv_Cons)
    moreover have "int k = dims_' oc" using keq d0 by simp
    ultimately show ?thesis by simp
  next
    case False
    then show ?thesis by simp
  qed
  moreover have "map (\<lambda>a. offsets ! a +
                (\<Sum>d = k..<nat (dims_' oc).
                   of_nat ((unat linear_idx div (\<Prod>j = k..<d. unat (sizes_' oc ! j))) mod unat (sizes_' oc ! d))
                   * strides_' oc ! d ! a)) [0..<NARGS] = offsets"
    using keq "0.prems"(2) map_nth [of offsets] by simp
  ultimately show ?case by simp
next
  case (Suc n)
  let ?n = "nat (dims_' oc)"
  let ?sz = "\<lambda>d. sizes_' oc ! d"
  let ?st = "\<lambda>d a. strides_' oc ! d ! a"
  have klt: "k < ?n" using Suc.hyps(2) by simp
  have d0: "0 \<le> dims_' oc" "dims_' oc \<le> MAX_DIMS" using ok by (simp_all add: OffsetCalculator_ok_def)
  have kmax: "k < nat MAX_DIMS" using klt d0 by simp
  have upt: "[k..<nat MAX_DIMS] = k # [Suc k..<nat MAX_DIMS]" using kmax by (simp add: upt_conv_Cons)
  have ne: "int k \<noteq> dims_' oc" using klt by simp
  have lens: "length (sizes_' oc) = nat MAX_DIMS" "length (strides_' oc) = nat MAX_DIMS"
    using ok by (auto simp: OffsetCalculator_ok_def)
  have a1: "array_at (sizes_' oc) (int k) = Inr (?sz k)"
    using kmax lens by (simp add: array_at_def MAX_DIMS_def)
  have a2: "array_at (strides_' oc) (int k) = Inr (strides_' oc ! k)"
    using kmax lens by (simp add: array_at_def MAX_DIMS_def)
  have "strides_' oc ! k \<in> set (strides_' oc)" using kmax lens by simp
  then have rowlen: "length (strides_' oc ! k) = NARGS"
    using ok by (simp add: OffsetCalculator_ok_def)
  have sznz: "?sz k \<noteq> 0" using nz klt by simp
  let ?m = "linear_idx mod ?sz k"
  let ?offs' = "map2 (\<lambda>offset stride. offset + ?m * stride) offsets (strides_' oc ! k)"
  have len': "length ?offs' = NARGS" using Suc.prems(2) rowlen by simp
  have step: "get_loop oc [k..<nat MAX_DIMS] linear_idx offsets
      = get_loop oc [Suc k..<nat MAX_DIMS] (linear_idx div ?sz k) ?offs'"
    unfolding upt using ne a1 a2 sznz by (simp add: bind_err_def Let_def)
  have ih: "get_loop oc [Suc k..<nat MAX_DIMS] (linear_idx div ?sz k) ?offs' =
      Inr (map (\<lambda>a. ?offs' ! a +
                (\<Sum>d = Suc k..<?n.
                   of_nat ((unat (linear_idx div ?sz k) div (\<Prod>j = Suc k..<d. unat (?sz j))) mod unat (?sz d))
                   * ?st d a))
              [0..<NARGS])"
    using Suc.hyps(1) [of "Suc k" ?offs' "linear_idx div ?sz k"] Suc.hyps(2) klt len' by simp
  have "map (\<lambda>a. ?offs' ! a +
                (\<Sum>d = Suc k..<?n.
                   of_nat ((unat (linear_idx div ?sz k) div (\<Prod>j = Suc k..<d. unat (?sz j))) mod unat (?sz d))
                   * ?st d a)) [0..<NARGS]
      = map (\<lambda>a. offsets ! a +
                (\<Sum>d = k..<?n.
                   of_nat ((unat linear_idx div (\<Prod>j = k..<d. unat (?sz j))) mod unat (?sz d))
                   * ?st d a)) [0..<NARGS]"
  proof (rule map_cong [OF refl])
    fix a assume "a \<in> set [0..<NARGS]"
    then have a: "a < NARGS" by simp
    have o': "?offs' ! a = offsets ! a + ?m * ?st k a"
      using a Suc.prems(2) rowlen by simp
    have tail: "(\<Sum>d = Suc k..<?n.
          of_nat ((unat (linear_idx div ?sz k) div (\<Prod>j = Suc k..<d. unat (?sz j))) mod unat (?sz d)) * ?st d a)
        = (\<Sum>d = Suc k..<?n.
          of_nat ((unat linear_idx div (\<Prod>j = k..<d. unat (?sz j))) mod unat (?sz d)) * ?st d a)"
    proof (rule sum.cong [OF refl])
      fix d assume "d \<in> {Suc k..<?n}"
      then have kd: "k < d" by simp
      have "(\<Prod>j = k..<d. unat (?sz j)) = unat (?sz k) * (\<Prod>j = Suc k..<d. unat (?sz j))"
        using kd by (simp add: prod.atLeast_Suc_lessThan)
      then have "unat (linear_idx div ?sz k) div (\<Prod>j = Suc k..<d. unat (?sz j))
          = unat linear_idx div (\<Prod>j = k..<d. unat (?sz j))"
        by (simp add: unat_div_chain div_mult2_eq)
      then show "of_nat ((unat (linear_idx div ?sz k) div (\<Prod>j = Suc k..<d. unat (?sz j))) mod unat (?sz d)) * ?st d a
          = of_nat ((unat linear_idx div (\<Prod>j = k..<d. unat (?sz j))) mod unat (?sz d)) * ?st d a"
        by simp
    qed
    have head: "?m = of_nat ((unat linear_idx div (\<Prod>j = k..<k. unat (?sz j))) mod unat (?sz k))"
      by (simp add: word_mod_of_nat)
    have "(\<Sum>d = k..<?n.
          of_nat ((unat linear_idx div (\<Prod>j = k..<d. unat (?sz j))) mod unat (?sz d)) * ?st d a)
        = ?m * ?st k a + (\<Sum>d = Suc k..<?n.
          of_nat ((unat linear_idx div (\<Prod>j = k..<d. unat (?sz j))) mod unat (?sz d)) * ?st d a)"
      using klt head by (simp add: sum.atLeast_Suc_lessThan)
    then show "?offs' ! a +
                (\<Sum>d = Suc k..<?n.
                   of_nat ((unat (linear_idx div ?sz k) div (\<Prod>j = Suc k..<d. unat (?sz j))) mod unat (?sz d))
                   * ?st d a) = offsets ! a +
                (\<Sum>d = k..<?n.
                   of_nat ((unat linear_idx div (\<Prod>j = k..<d. unat (?sz j))) mod unat (?sz d))
                   * ?st d a)"
      unfolding o' tail by (simp add: add.assoc)
  qed
  then show ?case using step ih by simp
qed


lemma word_sum_of_int:
  "(\<Sum>d\<in>S. of_nat (x d) * index_t (t d)) = (word_of_int (\<Sum>d\<in>S. int (x d) * t d) :: 32 word)"
  by (induction S rule: infinite_finite_induct) (simp_all add: index_t_def)

text \<open>
  C5, as far as the code goes: for \<open>0 \<le> dims \<le> MAX_DIMS\<close> and sizes that are not zero
  as \<^verbatim>\<open>index_t\<close> values, the constructor succeeds and \<^verbatim>\<open>get(i)\<close> returns for each operand
  \<open>a\<close> the sum over the axes \<open>d < dims\<close> of
  \<open>((i div (s\<^sub>0 * ... * s\<^bsub>d-1\<^esub>)) mod s\<^sub>d) * strides[a][d]\<close>, reduced modulo \<open>2\<^sup>3\<^sup>2\<close>, where
  \<open>s\<^sub>d\<close> is \<^verbatim>\<open>sizes[d]\<close> as an \<^verbatim>\<open>index_t\<close>. Axis 0 varies fastest, and the axes from
  \<open>dims\<close> on do not contribute.
\<close>

theorem get_decodes_row_major:
  assumes d0: "0 \<le> dims" and d1: "dims \<le> MAX_DIMS"
    and nz: "\<forall>d<nat dims. index_t (sizes d) \<noteq> 0"
  shows "\<exists>oc offsets.
           OffsetCalculator_new NARGS dims sizes strides = Inr oc \<and>
           get NARGS oc linear_idx = Inr offsets \<and> length offsets = NARGS \<and>
           (\<forall>a<NARGS. uint (offsets ! a) =
              (\<Sum>d<nat dims. int ((unat linear_idx div (\<Prod>k<d. unat (index_t (sizes k))))
                                      mod unat (index_t (sizes d))) * strides a d) mod 2 ^ 32)"
proof -
  let ?oc = "\<lparr>dims_' = dims,
      sizes_' = map (\<lambda>i. if int i < dims then index_t (sizes i) else 1) [0..<nat MAX_DIMS],
      strides_' = map (\<lambda>i. map (\<lambda>arg. if int i < dims then index_t (strides arg i) else 0) [0..<NARGS])
                   [0..<nat MAX_DIMS]\<rparr>"
  let ?n = "nat dims"
  have new: "OffsetCalculator_new NARGS dims sizes strides = Inr ?oc"
    using d1 by (simp add: OffsetCalculator_new_def)
  have ok: "OffsetCalculator_ok NARGS ?oc"
    using d0 d1 by (auto simp: OffsetCalculator_ok_def MAX_DIMS_def)
  have nle: "?n \<le> nat MAX_DIMS" using d1 by simp
  have sz: "sizes_' ?oc ! d = index_t (sizes d)" if "d < ?n" for d
  proof -
    have "int d < dims" "d < nat MAX_DIMS" using that nle by simp_all
    then show ?thesis by simp
  qed
  have st: "strides_' ?oc ! d ! a = index_t (strides a d)" if "d < ?n" "a < NARGS" for d a
  proof -
    have "int d < dims" "d < nat MAX_DIMS" using that nle by simp_all
    then show ?thesis using that(2) by simp
  qed
  have nz': "\<forall>d<nat (dims_' ?oc). sizes_' ?oc ! d \<noteq> 0" using nz sz by simp
  let ?offsets = "map (\<lambda>a. replicate NARGS 0 ! a +
                (\<Sum>d = 0..<nat (dims_' ?oc).
                   of_nat ((unat linear_idx div (\<Prod>j = 0..<d. unat (sizes_' ?oc ! j))) mod unat (sizes_' ?oc ! d))
                   * strides_' ?oc ! d ! a))
              [0..<NARGS]"
  have get: "get NARGS ?oc linear_idx = Inr ?offsets"
    unfolding get_def by (rule get_loop_sum [OF ok nz']) simp_all
  have val: "uint (?offsets ! a) =
      (\<Sum>d<?n. int ((unat linear_idx div (\<Prod>k<d. unat (index_t (sizes k))))
                         mod unat (index_t (sizes d))) * strides a d) mod 2 ^ 32" if a: "a < NARGS" for a
  proof -
    have "?offsets ! a = (\<Sum>d = 0..<?n.
        of_nat ((unat linear_idx div (\<Prod>j = 0..<d. unat (sizes_' ?oc ! j))) mod unat (sizes_' ?oc ! d))
        * strides_' ?oc ! d ! a)"
      using a by simp
    also have "\<dots> = (\<Sum>d = 0..<?n.
        of_nat ((unat linear_idx div (\<Prod>j = 0..<d. unat (index_t (sizes j)))) mod unat (index_t (sizes d)))
        * index_t (strides a d))"
    proof (rule sum.cong [OF refl])
      fix d assume "d \<in> {0..<?n}"
      then have d: "d < ?n" by simp
      have "(\<Prod>j = 0..<d. unat (sizes_' ?oc ! j)) = (\<Prod>j = 0..<d. unat (index_t (sizes j)))"
      proof (rule prod.cong [OF refl])
        fix j assume "j \<in> {0..<d}"
        then have "j < ?n" using d by simp
        then show "unat (sizes_' ?oc ! j) = unat (index_t (sizes j))" using sz by simp
      qed
      then show "of_nat ((unat linear_idx div (\<Prod>j = 0..<d. unat (sizes_' ?oc ! j))) mod unat (sizes_' ?oc ! d))
            * strides_' ?oc ! d ! a
          = of_nat ((unat linear_idx div (\<Prod>j = 0..<d. unat (index_t (sizes j)))) mod unat (index_t (sizes d)))
            * index_t (strides a d)"
        using sz [OF d] st [OF d a] by simp
    qed
    also have "\<dots> = word_of_int (\<Sum>d = 0..<?n.
        int ((unat linear_idx div (\<Prod>j = 0..<d. unat (index_t (sizes j)))) mod unat (index_t (sizes d)))
        * strides a d)"
      by (rule word_sum_of_int)
    finally have eq: "?offsets ! a = word_of_int (\<Sum>d = 0..<?n.
        int ((unat linear_idx div (\<Prod>j = 0..<d. unat (index_t (sizes j)))) mod unat (index_t (sizes d)))
        * strides a d)" .
    show ?thesis
      unfolding eq uint_word_of_int lessThan_atLeast0 by simp
  qed
  have "length ?offsets = NARGS" by simp
  with new get val show ?thesis by blast
qed

theorem get_decodes_row_major_witness:
  "(0::int) \<le> 2 \<and> (2::int) \<le> MAX_DIMS \<and> index_t 3 \<noteq> 0 \<and> index_t 2 \<noteq> 0 \<and>
   bind_err (OffsetCalculator_new 2 2 (\<lambda>d. [3, 2] ! d) (\<lambda>a d. [[4, 12], [8, 0]] ! a ! d))
     (\<lambda>oc. get 2 oc 4) = Inr [16, 8] \<and>
   (\<exists>oc offsets.
      OffsetCalculator_new 2 2 (\<lambda>d. [3, 2] ! d) (\<lambda>a d. [[4, 12], [8, 0]] ! a ! d) = Inr oc \<and>
      get 2 oc 4 = Inr offsets \<and> length offsets = 2 \<and>
      (\<forall>a<2. uint (offsets ! a) =
         (\<Sum>d<nat 2. int ((unat (4::32 word) div (\<Prod>k<d. unat (index_t ([3, 2] ! k))))
                            mod unat (index_t ([3, 2] ! d))) * [[4, 12], [8, 0]] ! a ! d) mod 2 ^ 32))"
proof -
  have h: "(0::int) \<le> 2" "(2::int) \<le> MAX_DIMS" "index_t 3 \<noteq> 0" "index_t 2 \<noteq> 0"
    by (simp_all add: MAX_DIMS_def index_t_def)
  have nz: "\<forall>d<nat 2. index_t ([3, 2] ! d) \<noteq> 0"
    using h by (simp add: less_Suc_eq numeral_2_eq_2)
  have r: "replicate 2 (0::32 word) = [0, 0]" by (simp add: numeral_2_eq_2)
  have v: "bind_err (OffsetCalculator_new 2 2 (\<lambda>d. [3, 2] ! d) (\<lambda>a d. [[4, 12], [8, 0]] ! a ! d))
     (\<lambda>oc. get 2 oc 4) = Inr [16, 8]"
    by (simp add: OffsetCalculator_new_def get_def MAX_DIMS_def bind_err_def array_at_def
          index_t_def upt_conv_Cons r)
  show ?thesis
    using h v get_decodes_row_major [of 2 "\<lambda>d. [3, 2] ! d" 2 "\<lambda>a d. [[4, 12], [8, 0]] ! a ! d" 4,
        OF h(1) h(2) nz]
    by blast
qed

text \<open>
  The claim of C5 as it is written, with the sum as a number, fails where the sum does
  not fit \<^verbatim>\<open>index_t\<close>: for one axis of size 4 with the byte stride \<open>2\<^sup>3\<^sup>1\<close>, \<^verbatim>\<open>get(3)\<close>
  returns \<open>2\<^sup>3\<^sup>1\<close>, and the sum is \<open>3 * 2\<^sup>3\<^sup>1\<close>.
\<close>

theorem get_wraps_around:
  "bind_err (OffsetCalculator_new 1 1 (\<lambda>d. 4) (\<lambda>a d. 2 ^ 31)) (\<lambda>oc. get 1 oc 3) = Inr [2 ^ 31] \<and>
   uint (2 ^ 31 :: 32 word) \<noteq> (\<Sum>d<(1::nat). ((3 div (\<Prod>k<d. 4)) mod 4) * 2 ^ 31)"
proof -
  have one: "{..<1::nat} = {0}" by auto
  show ?thesis
    by (simp add: OffsetCalculator_new_def get_def MAX_DIMS_def bind_err_def array_at_def
          index_t_def upt_conv_Cons one)
qed

section \<open>Properties of Indexer\<close>

lemma workload_offset_same:
  assumes "array_at bs d = Inr 0"
    and "\<forall>j<length is. is ! j \<noteq> d \<longrightarrow>
           decompose (map (\<lambda>i. ms ! nat i) is) w1 ! j = decompose (map (\<lambda>i. ms ! nat i) is) w2 ! j"
  shows "workload_offset ms bs is w1 off = workload_offset ms bs is w2 off"
  using assms(2)
proof (induction "is" arbitrary: w1 w2 off)
  case Nil
  then show ?case by simp
next
  case (Cons i "is")
  have tail: "\<forall>j<length is. is ! j \<noteq> d \<longrightarrow>
      decompose (map (\<lambda>i. ms ! nat i) is) (w1 smod ms ! nat i) ! j
    = decompose (map (\<lambda>i. ms ! nat i) is) (w2 smod ms ! nat i) ! j"
  proof (intro allI impI)
    fix j assume j: "j < length is" and nd: "is ! j \<noteq> d"
    have "Suc j < length (i # is)" "(i # is) ! Suc j \<noteq> d" using j nd by simp_all
    with Cons.prems have "decompose (map (\<lambda>i. ms ! nat i) (i # is)) w1 ! Suc j
        = decompose (map (\<lambda>i. ms ! nat i) (i # is)) w2 ! Suc j" by blast
    then show "decompose (map (\<lambda>i. ms ! nat i) is) (w1 smod ms ! nat i) ! j
        = decompose (map (\<lambda>i. ms ! nat i) is) (w2 smod ms ! nat i) ! j" by simp
  qed
  have head: "i \<noteq> d \<Longrightarrow> w1 sdiv ms ! nat i = w2 sdiv ms ! nat i"
    using Cons.prems by fastforce
  have step: "(w1 sdiv ms ! nat i) * b = (w2 sdiv ms ! nat i) * b" if "array_at bs i = Inr b" for b
  proof (cases "i = d")
    case True
    with that assms(1) have "b = 0" by simp
    then show ?thesis by simp
  next
    case False
    then show ?thesis using head by simp
  qed
  show ?case
  proof (cases "array_at ms i")
    case (Inl e)
    then show ?thesis by (simp add: bind_err_def)
  next
    case (Inr m)
    then have m: "m = ms ! nat i" by (simp add: array_at_def split: if_splits)
    show ?thesis
    proof (cases "array_at bs i")
      case (Inl e)
      then show ?thesis using Inr by (simp add: bind_err_def)
    next
      case b: (Inr b)
      show ?thesis
      proof (cases "m = 0")
        case True
        then show ?thesis using Inr b by (simp add: bind_err_def)
      next
        case False
        have "workload_offset ms bs (i # is) w1 off
            = workload_offset ms bs is (w1 smod m) (off + w1 sdiv m * b)"
          using Inr b False by (simp add: bind_err_def)
        also have "\<dots> = workload_offset ms bs is (w2 smod m) (off + w1 sdiv m * b)"
          using Cons.IH [OF tail] m by simp
        also have "off + w1 sdiv m * b = off + w2 sdiv m * b"
          using step [OF b] m by simp
        also have "workload_offset ms bs is (w2 smod m) (off + w2 sdiv m * b)
            = workload_offset ms bs (i # is) w2 off"
          using Inr b False by (simp add: bind_err_def)
        finally show ?thesis .
      qed
    qed
  qed
qed

lemma workload_offset_total:
  assumes "\<forall>i\<in>set is. 0 \<le> i \<and> i < int (length ms) \<and> i < int (length bs) \<and> ms ! nat i \<noteq> 0"
  shows "\<exists>r. workload_offset ms bs is w off = Inr r"
  using assms by (induction "is" arbitrary: w off) (auto simp: bind_err_def array_at_def)

text \<open>
  C6: let \<open>d\<close> be a reduction dimension of an \<^verbatim>\<open>Indexer\<close> (\<^verbatim>\<open>IsReductionDim\<close> holds:
  the output byte stride at \<open>d\<close> is 0 and the master extent at \<open>d\<close> is above 1). Two
  workload indices whose decompositions against the master strides agree on every axis
  but \<open>d\<close> get the same result from \<^verbatim>\<open>GetOutputPtr\<close>, and within the invariant of the
  \<^verbatim>\<open>Indexer\<close> that result is a pointer.
\<close>

theorem reduction_dim_same_output_ptr:
  assumes red: "IsReductionDim ix d = Inr True"
    and coords: "\<forall>i<nat (Indexer.ndims_' ix). int i \<noteq> d \<longrightarrow>
                   workload_coords ix w1 ! i = workload_coords ix w2 ! i"
    and w: "0 \<le> w1" "0 \<le> w2"
  shows "GetOutputPtr ix w1 = GetOutputPtr ix w2 \<and>
         (Indexer_ok ix \<longrightarrow> (\<exists>ptr. GetOutputPtr ix w1 = Inr ptr))"
proof
  from red obtain out where out: "array_at (outputs_' ix) 0 = Inr out"
    by (cases "array_at (outputs_' ix) 0") (simp_all add: IsReductionDim_def bind_err_def)
  from red out have bs0: "array_at (byte_strides_' out) d = Inr 0"
    by (cases "array_at (byte_strides_' out) d")
       (auto simp: IsReductionDim_def bind_err_def split: if_splits)
  let ?is = "map int [0..<nat (Indexer.ndims_' ix)]"
  have same: "\<forall>j<length ?is. ?is ! j \<noteq> d \<longrightarrow>
      decompose (map (\<lambda>i. master_strides_' ix ! nat i) ?is) w1 ! j
    = decompose (map (\<lambda>i. master_strides_' ix ! nat i) ?is) w2 ! j"
    using coords by (simp add: workload_coords_def comp_def)
  have "workload_offset (master_strides_' ix) (byte_strides_' out) ?is w1 0
      = workload_offset (master_strides_' ix) (byte_strides_' out) ?is w2 0"
    by (rule workload_offset_same [OF bs0 same])
  then show "GetOutputPtr ix w1 = GetOutputPtr ix w2"
    using out w by (simp add: GetOutputPtr_def GetWorkloadDataPtr_def bind_err_def)
  show "Indexer_ok ix \<longrightarrow> (\<exists>ptr. GetOutputPtr ix w1 = Inr ptr)"
  proof
    assume ok: "Indexer_ok ix"
    have "out \<in> set (outputs_' ix)" using out by (auto simp: array_at_def split: if_splits)
    then have len: "int (length (byte_strides_' out)) = MAX_DIMS" using ok by (simp add: Indexer_ok_def)
    have "\<forall>i\<in>set ?is. 0 \<le> i \<and> i < int (length (master_strides_' ix)) \<and>
        i < int (length (byte_strides_' out)) \<and> master_strides_' ix ! nat i \<noteq> 0"
      using ok len by (auto simp: Indexer_ok_def)
    from workload_offset_total [OF this]
    obtain r where "workload_offset (master_strides_' ix) (byte_strides_' out) ?is w1 0 = Inr r"
      by blast
    then show "\<exists>ptr. GetOutputPtr ix w1 = Inr ptr"
      using out w by (simp add: GetOutputPtr_def GetWorkloadDataPtr_def bind_err_def)
  qed
qed

theorem reduction_dim_same_output_ptr_witness:
  "IsReductionDim reduce_indexer 0 = Inr True \<and>
   workload_coords reduce_indexer 1 = [0, 1] \<and>
   workload_coords reduce_indexer 4 = [1, 1] \<and>
   Indexer_ok reduce_indexer \<and>
   GetOutputPtr reduce_indexer 1 = Inr 8196 \<and>
   GetOutputPtr reduce_indexer 4 = Inr 8196"
proof -
  have red: "IsReductionDim reduce_indexer 0 = Inr True"
    by (simp add: IsReductionDim_def reduce_indexer_def reduce_output_def array_at_def)
  have c1: "workload_coords reduce_indexer 1 = [0, 1]"
    by (simp add: workload_coords_def reduce_indexer_def eval_nat_numeral
          signed_divide_int_def signed_modulo_int_def)
  have c4: "workload_coords reduce_indexer 4 = [1, 1]"
    by (simp add: workload_coords_def reduce_indexer_def eval_nat_numeral
          signed_divide_int_def signed_modulo_int_def)
  have coords: "\<forall>i<nat (Indexer.ndims_' reduce_indexer). int i \<noteq> 0 \<longrightarrow>
      workload_coords reduce_indexer 1 ! i = workload_coords reduce_indexer 4 ! i"
    unfolding c1 c4 by (simp add: reduce_indexer_def eval_nat_numeral less_Suc_eq)
  have ok: "Indexer_ok reduce_indexer"
    by (simp add: Indexer_ok_def reduce_indexer_def reduce_input_def reduce_output_def
          unused_TensorRef_def MAX_DIMS_def MAX_INPUTS_def MAX_OUTPUTS_def
          eval_nat_numeral less_Suc_eq)
  have p1: "GetOutputPtr reduce_indexer 1 = Inr 8196"
    by (simp add: GetOutputPtr_def GetWorkloadDataPtr_def reduce_indexer_def reduce_output_def
          array_at_def eval_nat_numeral signed_divide_int_def signed_modulo_int_def)
  have "GetOutputPtr reduce_indexer 1 = GetOutputPtr reduce_indexer 4"
    using reduction_dim_same_output_ptr [OF red coords] by simp
  with red c1 c4 ok p1 show ?thesis by simp
qed

text \<open>
  C9: an accessor that is given an operand index outside \<open>[0, NumInputs())\<close>, or
  outside \<open>[0, NumOutputs())\<close> for an output. The accessors of the operands, \<^verbatim>\<open>GetInput\<close>
  and \<^verbatim>\<open>GetOutput\<close>, raise through \<^verbatim>\<open>LogError\<close>. The pointer accessor \<^verbatim>\<open>GetInputPtr\<close>
  does not raise: its guard returns the null pointer.
\<close>

theorem accessors_out_of_range:
  "(i < 0 \<or> NumInputs ix \<le> i \<longrightarrow>
      GetInput ix i = Inl (LogError ''0 <= i < {} required, however, i = {}.'') \<and>
      GetInputPtr ix i workload_idx = Inr nullptr) \<and>
   (i < 0 \<or> num_outputs_' ix \<le> i \<longrightarrow>
      GetOutput ix i = Inl (LogError ''0 <= i < {} required, however, i = {}.''))"
  by (auto simp: GetInput_def GetInputPtr_def GetOutput_def NumInputs_def)

theorem accessors_out_of_range_witness:
  "NumInputs reduce_indexer = 1 \<and> num_outputs_' reduce_indexer = 1 \<and>
   GetInput reduce_indexer 1 = Inl (LogError ''0 <= i < {} required, however, i = {}.'') \<and>
   GetInputPtr reduce_indexer 1 5 = Inr nullptr \<and>
   GetOutput reduce_indexer 1 = Inl (LogError ''0 <= i < {} required, however, i = {}.'')"
proof -
  have n: "NumInputs reduce_indexer = 1" "num_outputs_' reduce_indexer = 1"
    by (simp_all add: NumInputs_def reduce_indexer_def)
  then show ?thesis using accessors_out_of_range [of 1 reduce_indexer 5] by simp
qed

text \<open>
  The overload of \<^verbatim>\<open>GetOutputPtr\<close> with an output index does not check the index: beyond
  \<^verbatim>\<open>num_outputs_\<close> it decodes against an entry of \<^verbatim>\<open>outputs_\<close> that is not in use, and
  from \<^verbatim>\<open>MAX_OUTPUTS\<close> on it reads outside the array.
\<close>

lemma GetOutputPtr_idx_unchecked:
  "GetOutputPtr_idx reduce_indexer 1 0 = Inr (data_ptr_' unused_TensorRef)"
  "GetOutputPtr_idx reduce_indexer 7 0 = Inl OutOfBounds"
  by (simp_all add: GetOutputPtr_idx_def GetWorkloadDataPtr_def reduce_indexer_def
        unused_TensorRef_def array_at_def eval_nat_numeral
        signed_divide_int_def signed_modulo_int_def)

text \<open>
  The claim of C9 as it is written, that a pointer accessor raises for an operand index
  out of range instead of returning a null pointer, fails: \<^verbatim>\<open>GetInputPtr(-1, 0)\<close> on an
  \<^verbatim>\<open>Indexer\<close> with one input returns \<open>nullptr\<close>.
\<close>

theorem GetInputPtr_returns_null:
  "NumInputs reduce_indexer = 1 \<and> GetInputPtr reduce_indexer (-1) 0 = Inr nullptr"
  by (simp add: GetInputPtr_def NumInputs_def reduce_indexer_def)

section \<open>Properties of the point cloud kernels\<close>

text \<open>
  The scan of \<^verbatim>\<open>EstimatePointWiseNormalsWithFastEigen3x3\<close> leaves in \<^verbatim>\<open>max_coeff\<close> the
  least of the nine entries, so a positive multiple of the identity, whose least entry
  is 0, takes the exit of the all-zero matrix.
\<close>

lemma normals_of_scaled_identity:
  assumes "0 < s"
  shows "EstimatePointWiseNormalsWithFastEigen3x3 (\<lambda>i. [s, 0, 0, 0, s, 0, 0, 0, s] ! i) = [0, 0, 0]"
  using assms by (simp add: EstimatePointWiseNormalsWithFastEigen3x3_def upt_conv_Cons)

text \<open>
  C1, as far as the code goes: for the all-zero covariance matrix
  \<^verbatim>\<open>EstimatePointWiseNormalsWithFastEigen3x3\<close> returns the zero vector \<open>(0, 0, 0)\<close>, by
  its guard \<^verbatim>\<open>max_coeff == 0\<close>; it does not raise and the result is the same for every
  such input.
\<close>

theorem normals_of_zero_covariance:
  assumes "\<forall>i<9. covariance_ptr i = 0"
  shows "EstimatePointWiseNormalsWithFastEigen3x3 covariance_ptr = [0, 0, 0]"
proof -
  have c: "\<And>i. i < 9 \<Longrightarrow> covariance_ptr i = 0" using assms by simp
  have "fold (\<lambda>i max_coeff. if max_coeff > covariance_ptr i then covariance_ptr i else max_coeff)
          [1..<9] (covariance_ptr 0) = 0"
    by (simp add: upt_conv_Cons c)
  then show ?thesis
    by (simp add: EstimatePointWiseNormalsWithFastEigen3x3_def)
qed

theorem normals_of_zero_covariance_witness:
  "EstimatePointWiseNormalsWithFastEigen3x3 (\<lambda>i. if i < 9 then 0 else 7) = [0, 0, 0]"
  using normals_of_zero_covariance [of "\<lambda>i. if i < 9 then 0 else 7"] by simp

text \<open>
  The claim of C1 as it is written, that the result for the all-zero covariance matrix
  is a unit vector along a fixed axis, fails: the result has length 0.
\<close>

theorem normals_of_zero_covariance_not_unit:
  "EstimatePointWiseNormalsWithFastEigen3x3 (\<lambda>i. 0) ! 0 * EstimatePointWiseNormalsWithFastEigen3x3 (\<lambda>i. 0) ! 0 +
   EstimatePointWiseNormalsWithFastEigen3x3 (\<lambda>i. 0) ! 1 * EstimatePointWiseNormalsWithFastEigen3x3 (\<lambda>i. 0) ! 1 +
   EstimatePointWiseNormalsWithFastEigen3x3 (\<lambda>i. 0) ! 2 * EstimatePointWiseNormalsWithFastEigen3x3 (\<lambda>i. 0) ! 2 \<noteq> 1"
  by (simp add: EstimatePointWiseNormalsWithFastEigen3x3_def upt_conv_Cons)

text \<open>
  The expression that the preprocessor makes of
  \<^verbatim>\<open>O3D_MIN(O3D_MAX(half_det, -1.0), 1.0)\<close> bounds its argument from below only.
\<close>

lemma clamp_half_det_is_max: "clamp_half_det h = max h (-1)"
  by (simp add: clamp_half_det_def max_def)

text \<open>
  C3: the value passed to \<^verbatim>\<open>acos\<close> is to be \<open>min (max (det * 0.5) (-1)) 1\<close>, within
  \<open>[-1, 1]\<close>. A half-determinant above 1 passes the clamping statement unchanged:
  \<open>1 + 2\<^sup>-\<^sup>5\<^sup>1\<close>, which \<^verbatim>\<open>double\<close> arithmetic yields for the covariance
  \<^verbatim>\<open>{1, 2, 3, 2, 4, 6, 3, 6, 9}\<close>, stays \<open>1 + 2\<^sup>-\<^sup>5\<^sup>1\<close>.
\<close>

theorem clamp_half_det_above_one:
  "clamp_half_det (1 + 1 / 2 ^ 51) = 1 + 1 / 2 ^ 51 \<and> \<not> clamp_half_det (1 + 1 / 2 ^ 51) \<le> 1"
  by (simp add: clamp_half_det_def)

text \<open>
  In the diagonal fallback, with the nonzero value \<open>m\<close> of \<^verbatim>\<open>max_coeff\<close> and a scaled
  off-diagonal norm that is not positive, the result is the first axis when entry 0 is
  less than the entries 4 and 8, and the third axis otherwise; the second axis is never
  returned.
\<close>

lemma diagonal_fallback_axes:
  assumes "fold (\<lambda>i max_coeff. if max_coeff > covariance_ptr i then covariance_ptr i else max_coeff)
             [1..<9] (covariance_ptr 0) = m"
    and "m \<noteq> 0"
    and "\<not> 0 < (covariance_ptr 1 / m) * (covariance_ptr 1 / m) + (covariance_ptr 2 / m) * (covariance_ptr 2 / m)
               + (covariance_ptr 5 / m) * (covariance_ptr 5 / m)"
  shows "EstimatePointWiseNormalsWithFastEigen3x3 covariance_ptr =
           (if covariance_ptr 0 < covariance_ptr 4 \<and> covariance_ptr 0 < covariance_ptr 8
            then [1, 0, 0] else [0, 0, 1])"
proof -
  have A: "map (\<lambda>i. covariance_ptr i / m) [0..<9] ! 1 = covariance_ptr 1 / m"
    "map (\<lambda>i. covariance_ptr i / m) [0..<9] ! 2 = covariance_ptr 2 / m"
    "map (\<lambda>i. covariance_ptr i / m) [0..<9] ! 5 = covariance_ptr 5 / m"
    by (simp_all add: numeral_2_eq_2 [symmetric])
  show ?thesis
    unfolding EstimatePointWiseNormalsWithFastEigen3x3_def assms(1) Let_def A
    using assms(2,3) by simp
qed

text \<open>
  C4: in the diagonal fallback the result is to be the unit axis of the least diagonal
  entry. For the diagonal matrix with the entries \<open>2, -1, 3\<close> the least entry is the
  second one, entry 4 of the buffer; the fallback is reached, and the result is the third
  axis: the condition of the branch that returns the second axis repeats the condition
  of the branch before it.
\<close>

theorem normals_diagonal_fallback_second_axis:
  "EstimatePointWiseNormalsWithFastEigen3x3 (\<lambda>i. [2, 0, 0, 0, -1, 0, 0, 0, 3] ! i) = [0, 0, 1]"
  by (simp add: EstimatePointWiseNormalsWithFastEigen3x3_def upt_conv_Cons)

text \<open>
  C2: the nine entries written by \<^verbatim>\<open>EstimatePointWiseCovariance\<close> are to be the
  covariance matrix in row-major order, with \<open>out[1] = out[3]\<close>, \<open>out[2] = out[6]\<close> and
  \<open>out[5] = out[7]\<close>. For the two points \<open>(0, 1, 0)\<close> and \<open>(1, 0, 1)\<close> the covariance
  of the first and second coordinate is \<open>-1/4\<close> and the variances are \<open>1/4\<close>; the
  code writes the three variances to the entries 0, 1, 2 and copies them to 4, 6 (and the
  entry 5 to 8), so that \<open>out[1] = 1/4\<close> and \<open>out[3] = -1/4\<close>.
\<close>

theorem covariance_layout_two_points:
  "EstimatePointWiseCovariance (\<lambda>i. [0, 1, 0, 1, 0, 1] ! nat i) (\<lambda>i. [0, 1] ! i) 2
   = [1/4, 1/4, 1/4, -1/4, 1/4, 1/4, 1/4, -1/4, 1/4]"
  by (simp add: EstimatePointWiseCovariance_def accumulate_cumulants_def eval_nat_numeral Let_def)

subsection \<open>UnprojectCPU\<close>

lemma sdiv_nonneg: "0 \<le> a \<Longrightarrow> 0 < b \<Longrightarrow> (a::int) sdiv b = a div b"
  by (cases "a = 0") (simp_all add: signed_divide_int_def)

lemma smod_nonneg: "0 \<le> a \<Longrightarrow> 0 < b \<Longrightarrow> (a::int) smod b = a mod b"
  by (cases "a = 0") (simp_all add: signed_modulo_int_def)

lemma upt_grid:
  "map f [0..<r * c] = concat (map (\<lambda>i. map (\<lambda>j. f (i * c + j)) [0..<c]) [0..<r])"
proof (induction r)
  case 0
  then show ?case by simp
next
  case (Suc r)
  have a: "[0..<Suc r * c] = [0..<r * c] @ [r * c..<r * c + c]"
    using upt_add_eq_append [of 0 "r * c" c] by (simp add: add.commute)
  have b: "[r * c..<r * c + c] = map (\<lambda>j. j + r * c) [0..<c]"
    using map_add_upt [of "r * c" c] by (simp add: add.commute)
  have "map f [0..<Suc r * c] = map f [0..<r * c] @ map (\<lambda>j. f (r * c + j)) [0..<c]"
    unfolding a b by (simp add: comp_def add.commute)
  then show ?case using Suc.IH by simp
qed

lemma workloads_are_strided_pixels:
  assumes "0 < stride" "0 \<le> rows" "0 \<le> cols"
  shows "map (pixel_of stride (cols sdiv stride))
           (map int [0..<nat ((rows sdiv stride) * (cols sdiv stride))])
         = strided_pixels rows cols stride"
proof -
  let ?R = "nat (rows div stride)" and ?C = "nat (cols div stride)"
  have R: "rows sdiv stride = int ?R" and C: "cols sdiv stride = int ?C"
    using assms by (simp_all add: sdiv_nonneg pos_imp_zdiv_nonneg_iff)
  have n: "nat (int ?R * int ?C) = ?R * ?C" by (simp add: nat_mult_distrib)
  have "map (pixel_of stride (int ?C)) (map int [0..<?R * ?C])
      = concat (map (\<lambda>i. map (\<lambda>j. pixel_of stride (int ?C) (int (i * ?C + j))) [0..<?C]) [0..<?R])"
    using upt_grid [of "\<lambda>k. pixel_of stride (int ?C) (int k)" ?R ?C] by (simp add: comp_def)
  also have "\<dots> = concat (map (\<lambda>i. map (\<lambda>j. (int j * stride, int i * stride)) [0..<?C]) [0..<?R])"
  proof -
    have "pixel_of stride (int ?C) (int (i * ?C + j)) = (int j * stride, int i * stride)"
      if "j < ?C" for i j
    proof -
      have "0 < ?C" using that by linarith
      then have pos: "0 < int ?C" by linarith
      have "int (i * ?C + j) sdiv int ?C = int ((i * ?C + j) div ?C)"
        using pos by (simp add: sdiv_nonneg zdiv_int)
      moreover have "int (i * ?C + j) smod int ?C = int ((i * ?C + j) mod ?C)"
        using pos by (simp add: smod_nonneg zmod_int)
      moreover have "(i * ?C + j) div ?C = i" "(i * ?C + j) mod ?C = j" using that by simp_all
      ultimately show ?thesis by (simp add: pixel_of_def)
    qed
    then show ?thesis by (intro arg_cong [where f = concat] map_cong refl) simp
  qed
  finally show ?thesis unfolding R C n by (simp add: strided_pixels_def)
qed




text \<open>Each pixel is visited once, so the visits that are valid count the valid pixels.\<close>

lemma strided_pixels_distinct:
  assumes "0 < stride" "0 \<le> rows" "0 \<le> cols"
  shows "distinct (strided_pixels rows cols stride)"
proof -
  let ?C = "cols sdiv stride"
  let ?n = "nat ((rows sdiv stride) * ?C)"
  have "inj_on (pixel_of stride ?C) (set (map int [0..<?n]))"
  proof (rule inj_onI)
    fix v w assume v: "v \<in> set (map int [0..<?n])" and w: "w \<in> set (map int [0..<?n])"
      and eq: "pixel_of stride ?C v = pixel_of stride ?C w"
    from eq assms(1) have "v smod ?C = w smod ?C" "v sdiv ?C = w sdiv ?C"
      by (simp_all add: pixel_of_def)
    then have "v sdiv ?C * ?C + v smod ?C = w sdiv ?C * ?C + w smod ?C" by simp
    then show "v = w" by (simp only: sdiv_mult_smod_eq)
  qed
  moreover have "distinct (map int [0..<?n])" by (simp add: distinct_map)
  ultimately have "distinct (map (pixel_of stride ?C) (map int [0..<?n]))"
    by (simp only: distinct_map)
  then show ?thesis using workloads_are_strided_pixels [OF assms] by simp
qed




end
